theory Spec2Isabelle
  imports Complex_Main
begin

section \<open>Python values\<close>

text \<open>
  The values that travel through \<^verbatim>\<open>main.py\<close> are what \<^verbatim>\<open>response.json()\<close> can
  return: \<^verbatim>\<open>None\<close>, booleans, numbers, strings, lists and dictionaries with string keys.
  A dictionary is an association list; \<^verbatim>\<open>d.get(k, default)\<close> reads the first entry of
  the key. JSON numbers are read as integers.
\<close>

datatype pyval =
    PNone
  | PBool bool
  | PInt int
  | PStr string
  | PList "pyval list"
  | PDict "(string \<times> pyval) list"

text \<open>The truth value Python gives a value in \<^verbatim>\<open>if v:\<close> and \<^verbatim>\<open>not v\<close>.\<close>

fun truthy :: "pyval \<Rightarrow> bool" where
  "truthy PNone = False"
| "truthy (PBool b) = b"
| "truthy (PInt n) = (n \<noteq> 0)"
| "truthy (PStr s) = (s \<noteq> [])"
| "truthy (PList xs) = (xs \<noteq> [])"
| "truthy (PDict kvs) = (kvs \<noteq> [])"

text \<open>
  The exceptions of the program, all of them instances of \<^verbatim>\<open>Exception\<close>. The first five
  are subclasses of \<^verbatim>\<open>requests.exceptions.RequestException\<close> (\<^verbatim>\<open>HTTPError\<close> carries the
  status code); the others are not.
\<close>

datatype exn =
    ConnectionError
  | Timeout
  | InvalidURL
  | HTTPError nat
  | JSONDecodeError
  | AttributeError
  | TypeError
  | ValueError
  | OtherException string

fun is_RequestException :: "exn \<Rightarrow> bool" where
  "is_RequestException ConnectionError = True"
| "is_RequestException Timeout = True"
| "is_RequestException InvalidURL = True"
| "is_RequestException (HTTPError n) = True"
| "is_RequestException JSONDecodeError = True"
| "is_RequestException AttributeError = False"
| "is_RequestException TypeError = False"
| "is_RequestException ValueError = False"
| "is_RequestException (OtherException m) = False"

definition dict_get :: "(string \<times> pyval) list \<Rightarrow> string \<Rightarrow> pyval \<Rightarrow> pyval" where
  "dict_get kvs k d = (case map_of kvs k of Some v \<Rightarrow> v | None \<Rightarrow> d)"

text \<open>\<^verbatim>\<open>d[k] = v\<close>: an existing key keeps its place, a new key goes to the end.\<close>

fun dict_set :: "(string \<times> pyval) list \<Rightarrow> string \<Rightarrow> pyval \<Rightarrow> (string \<times> pyval) list" where
  "dict_set [] k v = [(k, v)]"
| "dict_set ((k', v') # kvs) k v =
     (if k' = k then (k, v) # kvs else (k', v') # dict_set kvs k v)"

text \<open>\<^verbatim>\<open>x.get(k, default)\<close>: only a dictionary has the method.\<close>

fun py_get :: "pyval \<Rightarrow> string \<Rightarrow> pyval \<Rightarrow> exn + pyval" where
  "py_get (PDict kvs) k d = Inr (dict_get kvs k d)"
| "py_get v k d = Inl AttributeError"

text \<open>
  \<^verbatim>\<open>for x in v\<close>: a list gives its elements, a dictionary its keys, a string its
  characters; the other values are not iterable.
\<close>

fun py_iter :: "pyval \<Rightarrow> exn + pyval list" where
  "py_iter (PList xs) = Inr xs"
| "py_iter (PDict kvs) = Inr (map (\<lambda>kv. PStr (fst kv)) kvs)"
| "py_iter (PStr s) = Inr (map (\<lambda>c. PStr [c]) s)"
| "py_iter v = Inl TypeError"

section \<open>The outside world\<close>

text \<open>
  Every outbound call and every reading of the clock goes through the environment: a
  function of the state of the world that returns the outcome and the next state of the
  world, so that the same call may answer differently each time. The HTML parser and
  \<^verbatim>\<open>jsonify\<close> are library functions of their argument alone. \<^verbatim>\<open>genai_Client\<close> is the
  outcome of \<^verbatim>\<open>genai.Client(api_key=os.getenv("GEMINI_API_KEY"))\<close> in the constructor
  of \<^verbatim>\<open>NewsSummarizer\<close>, which depends on the configuration of the process only:
  \<^verbatim>\<open>None\<close> when the client is built, the exception when it raises (\<^verbatim>\<open>ValueError\<close> for a
  missing key).
\<close>

record http_response =
  status_code :: nat
  response_text :: string
  json :: "pyval option"

datatype html = Text string | Element string "html list"

record 'w env =
  time_time :: "'w \<Rightarrow> real \<times> 'w"
  requests_get :: "'w \<Rightarrow> pyval \<Rightarrow> (exn + http_response) \<times> 'w"
  html_parser :: "string \<Rightarrow> exn + html list"
  generate_content :: "'w \<Rightarrow> string \<Rightarrow> string \<Rightarrow> (exn + string option) \<times> 'w"
  jsonify :: "pyval \<Rightarrow> string"
  genai_Client :: "exn option"

text \<open>\<^verbatim>\<open>_summaries_cache\<close>, the only global of the module.\<close>

record cache_entry =
  timestamp :: real
  data :: pyval

definition CACHE_TTL :: real where
  "CACHE_TTL = 40000"

definition initial_cache :: cache_entry where
  "initial_cache = \<lparr>timestamp = 0, data = PNone\<rparr>"

text \<open>
  The calls of the three methods of \<^verbatim>\<open>NewsSummarizer\<close>, with their arguments; each
  makes one outbound request.
\<close>

datatype call =
    NewsFetcherCall
  | ContentExtractorCall pyval
  | SummarizerCall string

text \<open>
  The state a request runs in: the world, the cache, and three histories that the
  program only ever extends: the method calls made, the lines printed (the prefix and
  the exception formatted into it), and the value of the cache after each assignment
  to one of its fields.
\<close>

record 'w state =
  world :: 'w
  cache :: cache_entry
  calls :: "call list"
  console :: "(string \<times> exn) list"
  cache_writes :: "cache_entry list"

definition print_error :: "string \<Rightarrow> exn \<Rightarrow> 'w state \<Rightarrow> 'w state" where
  "print_error prefix e s = s\<lparr>console := console s @ [(prefix, e)]\<rparr>"

definition log_call :: "call \<Rightarrow> 'w state \<Rightarrow> 'w state" where
  "log_call c s = s\<lparr>calls := calls s @ [c]\<rparr>"

section \<open>News Fetcher\<close>

definition mediastack_url :: pyval where
  "mediastack_url = PStr ''http://api.mediastack.com/v1/news''"

text \<open>\<^verbatim>\<open>response.raise_for_status()\<close> raises for the status codes 400 to 599.\<close>

definition raise_for_status :: "http_response \<Rightarrow> exn option" where
  "raise_for_status r =
     (if 400 \<le> status_code r \<and> status_code r < 600 then Some (HTTPError (status_code r))
      else None)"

text \<open>
  The body of the \<^verbatim>\<open>try\<close> block of \<^verbatim>\<open>fetch_news\<close>: the request, the status check,
  the JSON body (\<^verbatim>\<open>None\<close> in the response record: the body is not JSON), and
  \<^verbatim>\<open>data.get('data', [])\<close>. The \<^verbatim>\<open>JSONDecodeError\<close> of \<^verbatim>\<open>response.json()\<close> is the
  one of \<^verbatim>\<open>requests\<close>, a \<^verbatim>\<open>RequestException\<close>.
\<close>

definition fetch_news_try :: "'w env \<Rightarrow> 'w state \<Rightarrow> (exn + pyval) \<times> 'w state" where
  "fetch_news_try env s =
     (case requests_get env (world s) mediastack_url of
        (Inl e, w) \<Rightarrow> (Inl e, s\<lparr>world := w\<rparr>)
      | (Inr response, w) \<Rightarrow>
          (case raise_for_status response of
             Some e \<Rightarrow> (Inl e, s\<lparr>world := w\<rparr>)
           | None \<Rightarrow>
               (case json response of
                  None \<Rightarrow> (Inl JSONDecodeError, s\<lparr>world := w\<rparr>)
                | Some d \<Rightarrow> (py_get d ''data'' (PList []), s\<lparr>world := w\<rparr>))))"

text \<open>\<^verbatim>\<open>fetch_news\<close>: the handler is \<^verbatim>\<open>except requests.exceptions.RequestException\<close>.\<close>

definition fetch_news :: "'w env \<Rightarrow> 'w state \<Rightarrow> (exn + pyval) \<times> 'w state" where
  "fetch_news env s =
     (case fetch_news_try env (log_call NewsFetcherCall s) of
        (Inl e, s') \<Rightarrow>
          (if is_RequestException e
           then (Inr (PList []), print_error ''Error fetching news: '' e s')
           else (Inl e, s'))
      | (Inr v, s') \<Rightarrow> (Inr v, s'))"

section \<open>Content Extractor\<close>

subsection \<open>String methods\<close>

text \<open>
  A character is a code point below 256. \<^verbatim>\<open>str.strip()\<close> removes the characters
  for which \<^verbatim>\<open>str.isspace\<close> holds: tab, line feed, vertical tab, form feed, carriage
  return, the four separators 0x1C to 0x1F, the space, 0x85 and the no-break space.
\<close>

definition isspace :: "char \<Rightarrow> bool" where
  "isspace c =
     (let n = (of_char c :: nat)
      in (9 \<le> n \<and> n \<le> 13) \<or> (28 \<le> n \<and> n \<le> 32) \<or> n = 133 \<or> n = 160)"

definition strip :: "string \<Rightarrow> string" where
  "strip s = rev (dropWhile isspace (rev (dropWhile isspace s)))"

text \<open>
  The line boundaries of \<^verbatim>\<open>str.splitlines()\<close>: line feed, vertical tab, form feed,
  carriage return, 0x1C, 0x1D, 0x1E and 0x85; a carriage return followed by a line feed
  is one boundary.
\<close>

definition is_linebreak :: "char \<Rightarrow> bool" where
  "is_linebreak c =
     (let n = (of_char c :: nat)
      in (10 \<le> n \<and> n \<le> 13) \<or> (28 \<le> n \<and> n \<le> 30) \<or> n = 133)"

text \<open>
  \<^verbatim>\<open>splitlines_from cur s\<close>: the lines of \<^verbatim>\<open>s\<close>, the first one prefixed with the
  characters read so far (\<^verbatim>\<open>cur\<close>, in reverse). A text that ends with a line boundary
  has no empty last line.
\<close>

fun splitlines_from :: "string \<Rightarrow> string \<Rightarrow> string list" where
  "splitlines_from cur [] = (if cur = [] then [] else [rev cur])"
| "splitlines_from cur [c] =
     (if is_linebreak c then [rev cur] else [rev (c # cur)])"
| "splitlines_from cur (c # d # s) =
     (if c = CHR 0x0D \<and> d = CHR 0x0A then rev cur # splitlines_from [] s
      else if is_linebreak c then rev cur # splitlines_from [] (d # s)
      else splitlines_from (c # cur) (d # s))"

definition splitlines :: "string \<Rightarrow> string list" where
  "splitlines s = splitlines_from [] s"

text \<open>
  \<^verbatim>\<open>line.split("  ")\<close>: the pieces between the occurrences of two spaces, found from
  the left and not overlapping.
\<close>

fun split_two_spaces :: "string \<Rightarrow> string list" where
  "split_two_spaces [] = [[]]"
| "split_two_spaces [c] = [[c]]"
| "split_two_spaces (c # d # s) =
     (if c = CHR '' '' \<and> d = CHR '' '' then [] # split_two_spaces s
      else (case split_two_spaces (d # s) of
              [] \<Rightarrow> [[c]]
            | p # ps \<Rightarrow> (c # p) # ps))"

text \<open>\<^verbatim>\<open>' '.join(xs)\<close>.\<close>

fun join_space :: "string list \<Rightarrow> string" where
  "join_space [] = []"
| "join_space [x] = x"
| "join_space (x # y # xs) = x @ CHR '' '' # join_space (y # xs)"

text \<open>Lines 61 to 63: the two generators and the join.\<close>

definition clean_up :: "string \<Rightarrow> string" where
  "clean_up txt =
     (let lines = map strip (splitlines txt);
          chunks = concat (map (\<lambda>line. map strip (split_two_spaces line)) lines)
      in join_space (filter (\<lambda>chunk. chunk \<noteq> []) chunks))"

subsection \<open>The parse tree\<close>

text \<open>
  BeautifulSoup is a library: its tree is taken as text nodes and elements with a tag
  name and children, and the parser as a function of the environment. \<^verbatim>\<open>soup(names)\<close>
  finds every element with one of the names, at any depth, and \<^verbatim>\<open>decompose()\<close> removes
  an element with all it contains. A text node is a plain string of the document
  (comments and declarations never reach the text and are left out of the tree).
  \<^verbatim>\<open>get_text()\<close> of the soup joins, in document order, the strings of class
  \<^verbatim>\<open>NavigableString\<close>; the strings the parser reads inside an \<^verbatim>\<open>rt\<close>, \<^verbatim>\<open>rp\<close>,
  \<^verbatim>\<open>style\<close>, \<^verbatim>\<open>script\<close> or \<^verbatim>\<open>template\<close> element, at any depth, get a class of
  their own and are not among them.
\<close>

fun has_name :: "string list \<Rightarrow> html \<Rightarrow> bool" where
  "has_name names (Text t) = False"
| "has_name names (Element n cs) = (n \<in> set names)"

fun decompose_found :: "string list \<Rightarrow> html \<Rightarrow> html" where
  "decompose_found names (Text t) = Text t"
| "decompose_found names (Element n cs) =
     Element n (map (decompose_found names) (filter (\<lambda>c. \<not> has_name names c) cs))"

definition string_containers :: "string list" where
  "string_containers = [''rt'', ''rp'', ''style'', ''script'', ''template'']"

fun get_text :: "html \<Rightarrow> string" where
  "get_text (Text t) = t"
| "get_text (Element n cs) =
     (if n \<in> set string_containers then [] else concat (map get_text cs))"

text \<open>The soup itself is the list of the top-level nodes of the document.\<close>

definition soup_decompose :: "string list \<Rightarrow> html list \<Rightarrow> html list" where
  "soup_decompose names soup =
     map (decompose_found names) (filter (\<lambda>c. \<not> has_name names c) soup)"

definition soup_get_text :: "html list \<Rightarrow> string" where
  "soup_get_text soup = concat (map get_text soup)"

subsection \<open>\<^verbatim>\<open>extract_content\<close>\<close>

text \<open>The body of the \<^verbatim>\<open>try\<close> block; the handler is \<^verbatim>\<open>except Exception\<close>.\<close>

definition extract_content_try :: "'w env \<Rightarrow> 'w state \<Rightarrow> pyval \<Rightarrow> (exn + string) \<times> 'w state" where
  "extract_content_try env s url =
     (case requests_get env (world s) url of
        (Inl e, w) \<Rightarrow> (Inl e, s\<lparr>world := w\<rparr>)
      | (Inr response, w) \<Rightarrow>
          (case raise_for_status response of
             Some e \<Rightarrow> (Inl e, s\<lparr>world := w\<rparr>)
           | None \<Rightarrow>
               (case html_parser env (response_text response) of
                  Inl e \<Rightarrow> (Inl e, s\<lparr>world := w\<rparr>)
                | Inr soup \<Rightarrow>
                    (Inr (clean_up (soup_get_text
                            (soup_decompose [''script'', ''style'', ''a''] soup))),
                     s\<lparr>world := w\<rparr>))))"

definition extract_content :: "'w env \<Rightarrow> 'w state \<Rightarrow> pyval \<Rightarrow> string \<times> 'w state" where
  "extract_content env s url =
     (case extract_content_try env (log_call (ContentExtractorCall url) s) url of
        (Inl e, s') \<Rightarrow> ([], print_error ''Error extracting content: '' e s')
      | (Inr txt, s') \<Rightarrow> (txt, s'))"

section \<open>Summarizer Client\<close>

definition prompt :: "string \<Rightarrow> string" where
  "prompt content =
     CHR 0x0A # replicate 12 (CHR '' '')
     @ ''Summarize the following article in exactly 60 words or less, maintaining key information:''
     @ [CHR 0x0A, CHR 0x0A] @ replicate 12 (CHR '' '') @ content
     @ CHR 0x0A # replicate 12 (CHR '' '')"

text \<open>
  The body of the \<^verbatim>\<open>try\<close> block: the text of the model's response may be \<^verbatim>\<open>None\<close>,
  which has no \<^verbatim>\<open>strip\<close>.
\<close>

definition generate_summary_try :: "'w env \<Rightarrow> 'w state \<Rightarrow> string \<Rightarrow> (exn + string) \<times> 'w state" where
  "generate_summary_try env s content =
     (case generate_content env (world s) ''gemini-2.0-flash'' (prompt content) of
        (Inl e, w) \<Rightarrow> (Inl e, s\<lparr>world := w\<rparr>)
      | (Inr None, w) \<Rightarrow> (Inl AttributeError, s\<lparr>world := w\<rparr>)
      | (Inr (Some t), w) \<Rightarrow> (Inr (strip t), s\<lparr>world := w\<rparr>))"

definition generate_summary :: "'w env \<Rightarrow> 'w state \<Rightarrow> string \<Rightarrow> string \<times> 'w state" where
  "generate_summary env s content =
     (case generate_summary_try env (log_call (SummarizerCall content) s) content of
        (Inl e, s') \<Rightarrow> ([], print_error ''Error generating summary: '' e s')
      | (Inr summary, s') \<Rightarrow> (summary, s'))"

section \<open>The endpoint\<close>

datatype response = Response nat string

text \<open>Lines 113 to 134, the body of the loop, for one article.\<close>

definition summary_data_init :: "(string \<times> pyval) list \<Rightarrow> (string \<times> pyval) list" where
  "summary_data_init article =
     [(''title'', dict_get article ''title'' (PStr ''N/A'')),
      (''source'', dict_get article ''source'' (PStr ''N/A'')),
      (''url'', dict_get article ''url'' (PStr ''N/A'')),
      (''published'', dict_get article ''published_at'' (PStr ''N/A'')),
      (''summary'', PNone),
      (''error'', PNone)]"

fun summarise_article :: "'w env \<Rightarrow> 'w state \<Rightarrow> pyval \<Rightarrow> (exn + pyval) \<times> 'w state" where
  "summarise_article env s (PDict article) =
     (let summary_data = summary_data_init article;
          url = dict_get article ''url'' PNone
      in if truthy url then
           (case extract_content env s url of
              (content, s1) \<Rightarrow>
                if content \<noteq> [] then
                  (case generate_summary env s1 content of
                     (summary, s2) \<Rightarrow>
                       if summary \<noteq> [] then
                         (Inr (PDict (dict_set summary_data ''summary'' (PStr summary))), s2)
                       else
                         (Inr (PDict (dict_set summary_data ''error''
                                 (PStr ''Could not generate summary.''))), s2))
                else
                  (Inr (PDict (dict_set summary_data ''error''
                          (PStr ''Could not extract article content.''))), s1))
         else
           (Inr (PDict (dict_set summary_data ''error''
                   (PStr ''No URL available for article.''))), s))"
| "summarise_article env s article = (Inl AttributeError, s)"

text \<open>The loop of lines 112 to 136, with \<^verbatim>\<open>results\<close> as it grows.\<close>

fun for_articles ::
  "'w env \<Rightarrow> 'w state \<Rightarrow> pyval list \<Rightarrow> pyval list \<Rightarrow> (exn + pyval list) \<times> 'w state" where
  "for_articles env s [] results = (Inr results, s)"
| "for_articles env s (article # rest) results =
     (case summarise_article env s article of
        (Inl e, s') \<Rightarrow> (Inl e, s')
      | (Inr summary_data, s') \<Rightarrow> for_articles env s' rest (results @ [summary_data]))"

text \<open>The two assignments of lines 138 and 139, each one write to the cache.\<close>

definition assign_timestamp :: "real \<Rightarrow> 'w state \<Rightarrow> 'w state" where
  "assign_timestamp t s =
     (let c = (cache s)\<lparr>timestamp := t\<rparr>
      in s\<lparr>cache := c, cache_writes := cache_writes s @ [c]\<rparr>)"

definition assign_data :: "pyval \<Rightarrow> 'w state \<Rightarrow> 'w state" where
  "assign_data d s =
     (let c = (cache s)\<lparr>data := d\<rparr>
      in s\<lparr>cache := c, cache_writes := cache_writes s @ [c]\<rparr>)"

definition read_clock :: "'w env \<Rightarrow> 'w state \<Rightarrow> real \<times> 'w state" where
  "read_clock env s = (case time_time env (world s) of (t, w) \<Rightarrow> (t, s\<lparr>world := w\<rparr>))"

definition is_fresh :: "real \<Rightarrow> cache_entry \<Rightarrow> bool" where
  "is_fresh now c = (data c \<noteq> PNone \<and> now - timestamp c < CACHE_TTL)"

text \<open>
  \<^verbatim>\<open>get_summaries\<close>, lines 101 to 140. Line 105 constructs \<^verbatim>\<open>NewsSummarizer\<close>,
  outside any \<^verbatim>\<open>try\<close>: the constructor makes no outbound call, and what
  \<^verbatim>\<open>genai.Client\<close> raises there leaves the handler. An exception that leaves the handler
  is the result \<^verbatim>\<open>Inl\<close>.
\<close>

definition get_summaries :: "'w env \<Rightarrow> 'w state \<Rightarrow> (exn + response) \<times> 'w state" where
  "get_summaries env s =
     (case read_clock env s of
        (now, s1) \<Rightarrow>
          if is_fresh now (cache s1) then
            (Inr (Response 200 (jsonify env (data (cache s1)))), s1)
          else
            (case genai_Client env of
               Some e \<Rightarrow> (Inl e, s1)
             | None \<Rightarrow>
                 (case fetch_news env s1 of
                    (Inl e, s2) \<Rightarrow> (Inl e, s2)
                  | (Inr articles, s2) \<Rightarrow>
                      if \<not> truthy articles then
                        (Inr (Response 404
                               (jsonify env (PDict [(''message'', PStr ''No articles found.'')]))),
                         s2)
                      else
                        (case py_iter articles of
                           Inl e \<Rightarrow> (Inl e, s2)
                         | Inr items \<Rightarrow>
                             (case for_articles env s2 items [] of
                                (Inl e, s3) \<Rightarrow> (Inl e, s3)
                              | (Inr results, s3) \<Rightarrow>
                                  (case read_clock env s3 of
                                     (t, s4) \<Rightarrow>
                                       (Inr (Response 200 (jsonify env (PList results))),
                                        assign_data (PList results)
                                          (assign_timestamp t s4))))))))"

section \<open>Vocabulary of the properties\<close>

text \<open>Which method a call in the history belongs to.\<close>

fun is_extractor_call :: "call \<Rightarrow> bool" where
  "is_extractor_call (ContentExtractorCall u) = True"
| "is_extractor_call c = False"

fun is_summarizer_call :: "call \<Rightarrow> bool" where
  "is_summarizer_call (SummarizerCall c) = True"
| "is_summarizer_call c = False"

text \<open>
  The calls one article may cause: no News Fetcher call, at most one Content Extractor
  call and at most one Summarizer call.
\<close>

definition article_calls :: "call list \<Rightarrow> bool" where
  "article_calls cs =
     (NewsFetcherCall \<notin> set cs \<and> length (filter is_extractor_call cs) \<le> 1
      \<and> length (filter is_summarizer_call cs) \<le> 1)"

text \<open>The state in which the loop reaches article \<open>i\<close>: the first \<open>i\<close> articles are done.\<close>

definition state_before :: "'w env \<Rightarrow> 'w state \<Rightarrow> pyval list \<Rightarrow> nat \<Rightarrow> 'w state" where
  "state_before env s articles i = snd (for_articles env s (take i articles) [])"

text \<open>The value of a key of a record of the response, if the key is there.\<close>

fun py_field :: "pyval \<Rightarrow> string \<Rightarrow> pyval option" where
  "py_field (PDict kvs) k = map_of kvs k"
| "py_field v k = None"

definition is_null :: "pyval \<Rightarrow> string \<Rightarrow> bool" where
  "is_null r k = (py_field r k = Some PNone)"

definition non_null :: "pyval \<Rightarrow> string \<Rightarrow> bool" where
  "non_null r k = (case py_field r k of Some v \<Rightarrow> v \<noteq> PNone | None \<Rightarrow> False)"

definition exactly_one_of :: "pyval \<Rightarrow> bool" where
  "exactly_one_of r =
     ((non_null r ''summary'' \<and> is_null r ''error'')
      \<or> (is_null r ''summary'' \<and> non_null r ''error''))"


subsection \<open>The Aggregation Pipeline as the specification words it\<close>

text \<open>
  One record for an article, by the four steps of the specification: no URL, empty
  extraction, empty summary, summary. An article has no URL when the value of its
  \<^verbatim>\<open>url\<close> key is false in Python's sense; the calls are made in the state the
  loop has reached.
\<close>

definition metadata :: "(string \<times> pyval) list \<Rightarrow> (string \<times> pyval) list" where
  "metadata article =
     [(''title'', dict_get article ''title'' (PStr ''N/A'')),
      (''source'', dict_get article ''source'' (PStr ''N/A'')),
      (''url'', dict_get article ''url'' (PStr ''N/A'')),
      (''published'', dict_get article ''published_at'' (PStr ''N/A''))]"

definition with_error :: "(string \<times> pyval) list \<Rightarrow> string \<Rightarrow> pyval" where
  "with_error article e = PDict (metadata article @ [(''summary'', PNone), (''error'', PStr e)])"

definition with_summary :: "(string \<times> pyval) list \<Rightarrow> string \<Rightarrow> pyval" where
  "with_summary article t = PDict (metadata article @ [(''summary'', PStr t), (''error'', PNone)])"

definition spec_record :: "'w env \<Rightarrow> 'w state \<Rightarrow> (string \<times> pyval) list \<Rightarrow> pyval" where
  "spec_record env s article =
     (let url = dict_get article ''url'' PNone;
          content = fst (extract_content env s url);
          summary = fst (generate_summary env (snd (extract_content env s url)) content)
      in if \<not> truthy url then with_error article ''No URL available for article.''
         else if content = [] then with_error article ''Could not extract article content.''
         else if summary = [] then with_error article ''Could not generate summary.''
         else with_summary article summary)"

subsection \<open>The text of a document as the specification words it\<close>

text \<open>The text nodes of a tree that are not inside an element with one of the names.\<close>

fun visible_text :: "string list \<Rightarrow> html \<Rightarrow> string" where
  "visible_text names (Text t) = t"
| "visible_text names (Element n cs) =
     (if n \<in> set names then [] else concat (map (visible_text names) cs))"

text \<open>Two adjacent space characters somewhere in a string.\<close>

fun two_spaces :: "string \<Rightarrow> bool" where
  "two_spaces (c # d # s) = ((c = CHR '' '' \<and> d = CHR '' '') \<or> two_spaces (d # s))"
| "two_spaces s = False"

subsection \<open>A small world to run the program in\<close>

text \<open>
  The world is a counter of the calls made; the clock starts at 50000 seconds. The news
  API lists three articles: the page of the first is fetched and summarised, the second
  has a null URL, the page of the third cannot be reached. The page holds a link and a
  template, whose texts do not reach the summarizer.
\<close>

definition demo_articles :: "(string \<times> pyval) list list" where
  "demo_articles =
     [[(''title'', PStr ''T''), (''url'', PStr ''u'')],
      [(''title'', PNone), (''url'', PNone)],
      [(''url'', PStr ''v'')]]"

definition demo_page :: "html list" where
  "demo_page =
     [Element ''p''
        [Text ''hi  '', Element ''a'' [Text ''link''],
         Element ''template'' [Element ''b'' [Text ''q'']],
         Text [CHR ''y'', CHR 0x0A]]]"

definition demo_env :: "nat env" where
  "demo_env = \<lparr>
     time_time = (\<lambda>w. (50000 + real w, Suc w)),
     requests_get = (\<lambda>w url.
        (if url = mediastack_url then
           Inr \<lparr>status_code = 200, response_text = [],
                json = Some (PDict [(''data'', PList (map PDict demo_articles))])\<rparr>
         else if url = PStr ''u'' then
           Inr \<lparr>status_code = 200, response_text = ''page'', json = None\<rparr>
         else Inl ConnectionError, Suc w)),
     html_parser = (\<lambda>t. Inr demo_page),
     generate_content = (\<lambda>w m p. (Inr (Some '' X ''), Suc w)),
     jsonify = (\<lambda>v. case v of PList xs \<Rightarrow> replicate (length xs) CHR ''r'' | _ \<Rightarrow> ''m''),
     genai_Client = None\<rparr>"

definition demo_state :: "nat state" where
  "demo_state =
     \<lparr>world = 0, cache = initial_cache, calls = [], console = [], cache_writes = []\<rparr>"

text \<open>The state the first request leaves behind.\<close>

definition demo_results :: "pyval list" where
  "demo_results =
     [PDict [(''title'', PStr ''T''), (''source'', PStr ''N/A''), (''url'', PStr ''u''),
        (''published'', PStr ''N/A''), (''summary'', PStr ''X''), (''error'', PNone)],
      PDict [(''title'', PNone), (''source'', PStr ''N/A''), (''url'', PNone),
        (''published'', PStr ''N/A''), (''summary'', PNone),
        (''error'', PStr ''No URL available for article.'')],
      PDict [(''title'', PStr ''N/A''), (''source'', PStr ''N/A''), (''url'', PStr ''v''),
        (''published'', PStr ''N/A''), (''summary'', PNone),
        (''error'', PStr ''Could not extract article content.'')]]"

definition demo_cached_state :: "nat state" where
  "demo_cached_state =
     \<lparr>world = 6,
      cache = \<lparr>timestamp = 50005, data = PList demo_results\<rparr>,
      calls = [NewsFetcherCall, ContentExtractorCall (PStr ''u''), SummarizerCall ''hi y'',
               ContentExtractorCall (PStr ''v'')],
      console = [(''Error extracting content: '', ConnectionError)],
      cache_writes = [\<lparr>timestamp = 50005, data = PNone\<rparr>,
                      \<lparr>timestamp = 50005, data = PList demo_results\<rparr>]\<rparr>"

text \<open>A state whose cache holds an old list, stored 49999 seconds before the clock's start.\<close>

definition demo_stale_state :: "nat state" where
  "demo_stale_state =
     \<lparr>world = 0, cache = \<lparr>timestamp = 1, data = PList [PStr ''old'']\<rparr>, calls = [],
      console = [], cache_writes = []\<rparr>"

text \<open>A world whose news API answers 200 with the JSON array \<^verbatim>\<open>[]\<close> as its body.\<close>

definition list_body_env :: "nat env" where
  "list_body_env = demo_env\<lparr>requests_get := (\<lambda>w url.
     (Inr \<lparr>status_code = 200, response_text = ''[]'', json = Some (PList [])\<rparr>, Suc w))\<rparr>"

text \<open>A world whose news API answers \<^verbatim>\<open>{"data": []}\<close>.\<close>

definition empty_news_env :: "nat env" where
  "empty_news_env = demo_env\<lparr>requests_get := (\<lambda>w url.
     (Inr \<lparr>status_code = 200, response_text = [],
           json = Some (PDict [(''data'', PList [])])\<rparr>, Suc w))\<rparr>"

text \<open>A world in which no request gets through.\<close>

definition failing_env :: "nat env" where
  "failing_env = demo_env\<lparr>requests_get := (\<lambda>w url. (Inl ConnectionError, Suc w)),
     generate_content := (\<lambda>w m p. (Inl Timeout, Suc w))\<rparr>"

text \<open>A world whose news API answers 503, with a list of articles as the body.\<close>

definition server_error_env :: "nat env" where
  "server_error_env = demo_env\<lparr>requests_get := (\<lambda>w url.
     (Inr \<lparr>status_code = 503, response_text = [],
           json = Some (PDict [(''data'', PList (map PDict demo_articles))])\<rparr>, Suc w))\<rparr>"

text \<open>A world whose news API answers 200 with a body that is not JSON.\<close>

definition html_body_env :: "nat env" where
  "html_body_env = demo_env\<lparr>requests_get := (\<lambda>w url.
     (Inr \<lparr>status_code = 200, response_text = ''<html>'', json = None\<rparr>, Suc w))\<rparr>"

text \<open>
  A world whose HTML parser raises \<^verbatim>\<open>AttributeError\<close> and whose model answers without
  text.
\<close>

definition broken_parser_env :: "nat env" where
  "broken_parser_env = demo_env\<lparr>html_parser := (\<lambda>t. Inl AttributeError),
     generate_content := (\<lambda>w m p. (Inr None, Suc w))\<rparr>"


text \<open>A world whose pages all parse to the one text node \<^verbatim>\<open>a\<close>, space, tab, \<^verbatim>\<open>b\<close>.\<close>

definition tab_page_env :: "nat env" where
  "tab_page_env =
     demo_env\<lparr>html_parser := (\<lambda>t. Inr [Text [CHR ''a'', CHR '' '', CHR 0x09, CHR ''b'']])\<rparr>"

section \<open>Properties\<close>

declare summarise_article.simps [simp del]

subsection \<open>What the methods and the loop do to the state\<close>

lemma extract_content_state:
  assumes "extract_content env s url = (txt, s')"
  shows "cache s' = cache s \<and> cache_writes s' = cache_writes s
         \<and> calls s' = calls s @ [ContentExtractorCall url]"
  using assms
  by (auto simp: extract_content_def extract_content_try_def log_call_def print_error_def
      split: prod.splits sum.splits option.splits)

lemma generate_summary_state:
  assumes "generate_summary env s content = (summary, s')"
  shows "cache s' = cache s \<and> cache_writes s' = cache_writes s
         \<and> calls s' = calls s @ [SummarizerCall content]"
  using assms
  by (auto simp: generate_summary_def generate_summary_try_def log_call_def print_error_def
      split: prod.splits sum.splits option.splits)

lemma fetch_news_state:
  assumes "fetch_news env s = (r, s')"
  shows "cache s' = cache s \<and> cache_writes s' = cache_writes s
         \<and> calls s' = calls s @ [NewsFetcherCall]"
  using assms
  by (auto simp: fetch_news_def fetch_news_try_def log_call_def print_error_def
      split: prod.splits sum.splits option.splits if_splits)

lemma summarise_article_state:
  assumes "summarise_article env s article = (r, s')"
  shows "cache s' = cache s \<and> cache_writes s' = cache_writes s
         \<and> (\<exists>cs. calls s' = calls s @ cs \<and> article_calls cs)"
proof (cases article)
  case (PDict kvs)
  show ?thesis
    using assms unfolding PDict
    by (auto simp: summarise_article.simps Let_def article_calls_def split: if_splits prod.splits
        dest!: extract_content_state generate_summary_state)
qed (use assms in \<open>auto simp: summarise_article.simps article_calls_def\<close>)

lemma for_articles_acc:
  "for_articles env s xs acc =
     (case for_articles env s xs [] of
        (Inl e, s') \<Rightarrow> (Inl e, s')
      | (Inr r, s') \<Rightarrow> (Inr (acc @ r), s'))"
proof (induction xs arbitrary: s acc)
  case Nil
  show ?case by simp
next
  case (Cons x xs)
  show ?case
  proof (cases "summarise_article env s x")
    case (Pair r s1)
    show ?thesis
    proof (cases r)
      case (Inl e)
      with Pair show ?thesis by simp
    next
      case (Inr d)
      have a: "for_articles env s (x # xs) acc = for_articles env s1 xs (acc @ [d])"
        and b: "for_articles env s (x # xs) [] = for_articles env s1 xs [d]"
        using Pair Inr by simp_all
      obtain r0 s0 where c: "for_articles env s1 xs [] = (r0, s0)"
        by (cases "for_articles env s1 xs []")
      show ?thesis
        unfolding a b
        using Cons.IH [of s1 "acc @ [d]"] Cons.IH [of s1 "[d]"] c
        by (cases r0) simp_all
    qed
  qed
qed

lemma for_articles_append:
  "for_articles env s (xs @ ys) acc =
     (case for_articles env s xs acc of
        (Inl e, s') \<Rightarrow> (Inl e, s')
      | (Inr r, s') \<Rightarrow> for_articles env s' ys r)"
  by (induction xs arbitrary: s acc) (auto split: prod.splits sum.splits)

lemma summarise_article_dict:
  "\<exists>d s'. summarise_article env s (PDict a) = (Inr (PDict d), s')"
  by (auto simp: summarise_article.simps Let_def split: prod.splits)

lemma for_articles_dicts:
  "\<exists>results s'. for_articles env s (map PDict articles) acc = (Inr (acc @ results), s')
      \<and> length results = length articles"
proof (induction articles arbitrary: s acc)
  case Nil
  show ?case by simp
next
  case (Cons a articles)
  obtain d s1 where d: "summarise_article env s (PDict a) = (Inr (PDict d), s1)"
    using summarise_article_dict by blast
  obtain results s' where
    r: "for_articles env s1 (map PDict articles) (acc @ [PDict d]) = (Inr ((acc @ [PDict d]) @ results), s')"
      "length results = length articles"
    using Cons.IH by blast
  show ?case
    using d r by (intro exI [of _ "PDict d # results"] exI [of _ s']) simp
qed

lemma summarise_article_spec:
  "fst (summarise_article env s (PDict a)) = Inr (spec_record env s a)"
  by (simp add: summarise_article.simps spec_record_def Let_def summary_data_init_def with_error_def with_summary_def
      metadata_def split: prod.splits)

lemma for_articles_nth:
  assumes "for_articles env s (map PDict articles) [] = (Inr results, s')"
    and "i < length articles"
  shows "fst (summarise_article env (state_before env s (map PDict articles) i)
            (PDict (articles ! i))) = Inr (results ! i)"
proof -
  let ?xs = "take i articles" and ?ys = "drop (Suc i) articles"
  have split: "articles = ?xs @ articles ! i # ?ys"
    using assms(2) by (simp add: id_take_nth_drop)
  obtain r1 s1 where r1: "for_articles env s (map PDict ?xs) [] = (Inr r1, s1)"
    and len: "length r1 = length ?xs"
    using for_articles_dicts [of env s ?xs "[]"] by auto
  obtain d s2 where d: "summarise_article env s1 (PDict (articles ! i)) = (Inr (PDict d), s2)"
    using summarise_article_dict by blast
  obtain r3 s3 where r3: "for_articles env s2 (map PDict ?ys) (r1 @ [PDict d])
       = (Inr ((r1 @ [PDict d]) @ r3), s3)"
    using for_articles_dicts [of env s2 ?ys "r1 @ [PDict d]"] by auto
  have "for_articles env s (map PDict articles) []
        = for_articles env s (map PDict ?xs @ PDict (articles ! i) # map PDict ?ys) []"
    by (subst split) simp
  also have "\<dots> = (Inr ((r1 @ [PDict d]) @ r3), s3)"
    by (simp add: for_articles_append r1 d r3)
  finally have "results = (r1 @ [PDict d]) @ r3"
    using assms(1) by simp
  then have "results ! i = PDict d"
    using len assms(2) by (simp add: nth_append)
  moreover have "state_before env s (map PDict articles) i = s1"
    by (simp add: state_before_def take_map r1)
  ultimately show ?thesis
    using d by simp
qed

subsection \<open>The records of the pipeline\<close>

text \<open>
  Claim C5. For every list of articles (dictionaries), the loop ends with exactly one
  record per article, in the order of the input, and record \<open>i\<close> is the one the four
  steps of the specification give for article \<open>i\<close> in the state the loop has reached
  after the first \<open>i\<close> articles: ``No URL available for article.'' without a URL,
  else ``Could not extract article content.'' when the extractor returns the empty
  string, else ``Could not generate summary.'' when the summarizer does, else the
  summary. A failed article is followed by the remaining ones.
\<close>

theorem pipeline_one_record_per_article:
  "\<exists>results s'. for_articles env s (map PDict articles) [] = (Inr results, s')
     \<and> length results = length articles
     \<and> (\<forall>i<length articles.
          results ! i = spec_record env (state_before env s (map PDict articles) i) (articles ! i))"
proof -
  obtain results s' where r: "for_articles env s (map PDict articles) [] = (Inr results, s')"
    and len: "length results = length articles"
    using for_articles_dicts [of env s articles "[]"] by auto
  have "results ! i = spec_record env (state_before env s (map PDict articles) i) (articles ! i)"
    if "i < length articles" for i
    using for_articles_nth [OF r that] by (simp add: summarise_article_spec)
  with r len show ?thesis by blast
qed

lemma py_field_with_error:
  "py_field (with_error a e) ''summary'' = Some PNone"
  "py_field (with_error a e) ''error'' = Some (PStr e)"
  by (simp_all add: with_error_def metadata_def)

lemma py_field_with_summary:
  "py_field (with_summary a t) ''summary'' = Some (PStr t)"
  "py_field (with_summary a t) ''error'' = Some PNone"
  by (simp_all add: with_summary_def metadata_def)

lemma py_field_metadata:
  "py_field (spec_record env s a) ''title'' = Some (dict_get a ''title'' (PStr ''N/A''))"
  "py_field (spec_record env s a) ''source'' = Some (dict_get a ''source'' (PStr ''N/A''))"
  "py_field (spec_record env s a) ''url'' = Some (dict_get a ''url'' (PStr ''N/A''))"
  "py_field (spec_record env s a) ''published'' = Some (dict_get a ''published_at'' (PStr ''N/A''))"
  by (simp_all add: spec_record_def Let_def with_error_def with_summary_def metadata_def)

lemma exactly_one_of_spec_record: "exactly_one_of (spec_record env s a)"
  by (simp add: spec_record_def Let_def exactly_one_of_def is_null_def non_null_def
      py_field_with_error py_field_with_summary)

lemma for_articles_records:
  assumes "for_articles env s (map PDict articles) [] = (Inr results, s')"
  shows "length results = length articles"
    and "i < length articles \<Longrightarrow>
         results ! i = spec_record env (state_before env s (map PDict articles) i) (articles ! i)"
proof -
  show "length results = length articles"
    using for_articles_dicts [of env s articles "[]"] assms by auto
  show "results ! i = spec_record env (state_before env s (map PDict articles) i) (articles ! i)"
    if "i < length articles"
    using for_articles_nth [OF assms that] by (simp add: summarise_article_spec)
qed

text \<open>
  Claim C1. For every list of articles and whatever the extractor and the summarizer
  return, every record of the result has exactly one of \<^verbatim>\<open>summary\<close> and
  \<^verbatim>\<open>error\<close> non-null: when the URL is there and extraction and summarization both
  give a non-empty string, \<^verbatim>\<open>summary\<close> is that summary and \<^verbatim>\<open>error\<close> is null; in
  every other case \<^verbatim>\<open>summary\<close> is null and \<^verbatim>\<open>error\<close> is not.
\<close>

theorem exactly_one_of_summary_and_error:
  "\<exists>results s'. for_articles env s (map PDict articles) [] = (Inr results, s')
     \<and> length results = length articles
     \<and> (\<forall>r\<in>set results. exactly_one_of r)
     \<and> (\<forall>i<length articles.
          let st = state_before env s (map PDict articles) i;
              url = dict_get (articles ! i) ''url'' PNone;
              content = fst (extract_content env st url);
              summary = fst (generate_summary env (snd (extract_content env st url)) content)
          in if truthy url \<and> content \<noteq> [] \<and> summary \<noteq> []
             then py_field (results ! i) ''summary'' = Some (PStr summary)
                  \<and> is_null (results ! i) ''error''
             else is_null (results ! i) ''summary'' \<and> non_null (results ! i) ''error'')"
proof -
  obtain results s' where r: "for_articles env s (map PDict articles) [] = (Inr results, s')"
    using for_articles_dicts [of env s articles "[]"] by auto
  note recs = for_articles_records [OF r]
  have one: "exactly_one_of x" if "x \<in> set results" for x
  proof -
    from that obtain i where "i < length results" and "x = results ! i"
      by (auto simp: in_set_conv_nth)
    then show ?thesis
      using recs by (simp add: exactly_one_of_spec_record)
  qed
  have branch: "let st = state_before env s (map PDict articles) i;
              url = dict_get (articles ! i) ''url'' PNone;
              content = fst (extract_content env st url);
              summary = fst (generate_summary env (snd (extract_content env st url)) content)
          in if truthy url \<and> content \<noteq> [] \<and> summary \<noteq> []
             then py_field (results ! i) ''summary'' = Some (PStr summary)
                  \<and> is_null (results ! i) ''error''
             else is_null (results ! i) ''summary'' \<and> non_null (results ! i) ''error''"
    if "i < length articles" for i
    unfolding recs(2) [OF that]
    by (simp add: spec_record_def Let_def is_null_def non_null_def
        py_field_with_error py_field_with_summary)
  from r recs(1) one branch show ?thesis by blast
qed

text \<open>
  Claim C9. In every record, \<^verbatim>\<open>title\<close>, \<^verbatim>\<open>source\<close>, \<^verbatim>\<open>url\<close> and \<^verbatim>\<open>published\<close>
  are the values of the article's keys \<^verbatim>\<open>title\<close>, \<^verbatim>\<open>source\<close>, \<^verbatim>\<open>url\<close> and
  \<^verbatim>\<open>published_at\<close> when the key is present, a present null included, and the
  string \<^verbatim>\<open>N/A\<close> only when the key is absent.
\<close>

theorem metadata_passed_through:
  "\<exists>results s'. for_articles env s (map PDict articles) [] = (Inr results, s')
     \<and> length results = length articles
     \<and> (\<forall>i<length articles.
          py_field (results ! i) ''title'' =
            Some (case map_of (articles ! i) ''title'' of Some v \<Rightarrow> v | None \<Rightarrow> PStr ''N/A'')
          \<and> py_field (results ! i) ''source'' =
            Some (case map_of (articles ! i) ''source'' of Some v \<Rightarrow> v | None \<Rightarrow> PStr ''N/A'')
          \<and> py_field (results ! i) ''url'' =
            Some (case map_of (articles ! i) ''url'' of Some v \<Rightarrow> v | None \<Rightarrow> PStr ''N/A'')
          \<and> py_field (results ! i) ''published'' =
            Some (case map_of (articles ! i) ''published_at'' of Some v \<Rightarrow> v | None \<Rightarrow> PStr ''N/A''))"
proof -
  obtain results s' where r: "for_articles env s (map PDict articles) [] = (Inr results, s')"
    using for_articles_dicts [of env s articles "[]"] by auto
  note recs = for_articles_records [OF r]
  show ?thesis
    using r recs(1) by (auto simp: recs(2) py_field_metadata dict_get_def)
qed

text \<open>
  Claim C10. An article whose \<^verbatim>\<open>url\<close> key is present with a false value (null, the
  empty string) takes the branch without URL: the record has the error ``No URL
  available for article.'', a null summary and the value of the key as its \<^verbatim>\<open>url\<close>;
  the state is unchanged, so neither the extractor nor the summarizer is called, and
  the loop goes on with the remaining articles.
\<close>

theorem falsy_url_is_no_url:
  assumes "map_of article ''url'' = Some url" and "\<not> truthy url"
  shows "\<exists>r. summarise_article env s (PDict article) = (Inr r, s)
     \<and> py_field r ''error'' = Some (PStr ''No URL available for article.'')
     \<and> py_field r ''summary'' = Some PNone
     \<and> py_field r ''url'' = Some url
     \<and> for_articles env s (PDict article # rest) results = for_articles env s rest (results @ [r])"
  using assms
  by (simp add: summarise_article.simps Let_def dict_get_def summary_data_init_def)

subsection \<open>The pipeline in the small world\<close>

lemmas demo_defs = demo_env_def demo_state_def demo_articles_def demo_page_def initial_cache_def
  state_before_def summarise_article.simps spec_record_def with_error_def with_summary_def metadata_def
  extract_content_def extract_content_try_def generate_summary_def generate_summary_try_def
  log_call_def print_error_def raise_for_status_def dict_get_def Let_def mediastack_url_def
  soup_decompose_def soup_get_text_def string_containers_def clean_up_def splitlines_def strip_def
  isspace_def is_linebreak_def

theorem pipeline_one_record_per_article_witness:
  "\<exists>results s'. for_articles demo_env demo_state (map PDict demo_articles) [] = (Inr results, s')
     \<and> length results = 3
     \<and> results ! 0 = PDict [(''title'', PStr ''T''), (''source'', PStr ''N/A''), (''url'', PStr ''u''),
          (''published'', PStr ''N/A''), (''summary'', PStr ''X''), (''error'', PNone)]
     \<and> results ! 1 = PDict [(''title'', PNone), (''source'', PStr ''N/A''), (''url'', PNone),
          (''published'', PStr ''N/A''), (''summary'', PNone),
          (''error'', PStr ''No URL available for article.'')]
     \<and> results ! 2 = PDict [(''title'', PStr ''N/A''), (''source'', PStr ''N/A''), (''url'', PStr ''v''),
          (''published'', PStr ''N/A''), (''summary'', PNone),
          (''error'', PStr ''Could not extract article content.'')]"
proof -
  from pipeline_one_record_per_article [of demo_env demo_state demo_articles]
  obtain results s' where
    r: "for_articles demo_env demo_state (map PDict demo_articles) [] = (Inr results, s')"
    and len: "length results = length demo_articles"
    and nth: "\<forall>i<length demo_articles. results ! i
        = spec_record demo_env (state_before demo_env demo_state (map PDict demo_articles) i)
            (demo_articles ! i)"
    by blast
  have "length results = 3"
    using len by (simp add: demo_articles_def)
  moreover have "results ! 0 = PDict [(''title'', PStr ''T''), (''source'', PStr ''N/A''), (''url'', PStr ''u''),
          (''published'', PStr ''N/A''), (''summary'', PStr ''X''), (''error'', PNone)]"
    using nth [rule_format, of 0] by (simp add: demo_defs)
  moreover have "results ! 1 = PDict [(''title'', PNone), (''source'', PStr ''N/A''), (''url'', PNone),
          (''published'', PStr ''N/A''), (''summary'', PNone),
          (''error'', PStr ''No URL available for article.'')]"
    using nth [rule_format, of 1] by (simp add: demo_defs)
  moreover have "results ! 2 = PDict [(''title'', PStr ''N/A''), (''source'', PStr ''N/A''), (''url'', PStr ''v''),
          (''published'', PStr ''N/A''), (''summary'', PNone),
          (''error'', PStr ''Could not extract article content.'')]"
    using nth [rule_format, of 2] by (simp add: demo_defs)
  ultimately show ?thesis
    using r by blast
qed

theorem exactly_one_of_summary_and_error_witness:
  "\<exists>results s'. for_articles demo_env demo_state (map PDict demo_articles) [] = (Inr results, s')
     \<and> length results = 3
     \<and> exactly_one_of (results ! 0) \<and> exactly_one_of (results ! 1) \<and> exactly_one_of (results ! 2)
     \<and> py_field (results ! 0) ''summary'' = Some (PStr ''X'') \<and> is_null (results ! 0) ''error''
     \<and> is_null (results ! 1) ''summary'' \<and> non_null (results ! 1) ''error''
     \<and> is_null (results ! 2) ''summary'' \<and> non_null (results ! 2) ''error''"
proof -
  from exactly_one_of_summary_and_error [of demo_env demo_state demo_articles]
  obtain results s' where
    r: "for_articles demo_env demo_state (map PDict demo_articles) [] = (Inr results, s')"
    and len: "length results = length demo_articles"
    and one: "\<forall>r\<in>set results. exactly_one_of r"
    and branch: "\<forall>i<length demo_articles.
          let st = state_before demo_env demo_state (map PDict demo_articles) i;
              url = dict_get (demo_articles ! i) ''url'' PNone;
              content = fst (extract_content demo_env st url);
              summary = fst (generate_summary demo_env (snd (extract_content demo_env st url)) content)
          in if truthy url \<and> content \<noteq> [] \<and> summary \<noteq> []
             then py_field (results ! i) ''summary'' = Some (PStr summary)
                  \<and> is_null (results ! i) ''error''
             else is_null (results ! i) ''summary'' \<and> non_null (results ! i) ''error''"
    by blast
  have len3: "length results = 3"
    using len by (simp add: demo_articles_def)
  then have "results ! 0 \<in> set results" "results ! 1 \<in> set results" "results ! 2 \<in> set results"
    by simp_all
  with one have "exactly_one_of (results ! 0)" "exactly_one_of (results ! 1)"
    "exactly_one_of (results ! 2)"
    by blast+
  moreover have "py_field (results ! 0) ''summary'' = Some (PStr ''X'') \<and> is_null (results ! 0) ''error''"
    using branch [rule_format, of 0] by (simp add: demo_defs)
  moreover have "is_null (results ! 1) ''summary'' \<and> non_null (results ! 1) ''error''"
    using branch [rule_format, of 1] by (simp add: demo_defs)
  moreover have "is_null (results ! 2) ''summary'' \<and> non_null (results ! 2) ''error''"
    using branch [rule_format, of 2] by (simp add: demo_defs)
  ultimately show ?thesis
    using r len3 by blast
qed

theorem metadata_passed_through_witness:
  "\<exists>results s'. for_articles demo_env demo_state (map PDict demo_articles) [] = (Inr results, s')
     \<and> length results = 3
     \<and> py_field (results ! 0) ''title'' = Some (PStr ''T'')
     \<and> py_field (results ! 1) ''title'' = Some PNone
     \<and> py_field (results ! 1) ''url'' = Some PNone
     \<and> py_field (results ! 2) ''title'' = Some (PStr ''N/A'')
     \<and> py_field (results ! 2) ''url'' = Some (PStr ''v'')
     \<and> py_field (results ! 2) ''published'' = Some (PStr ''N/A'')"
proof -
  from metadata_passed_through [of demo_env demo_state demo_articles]
  obtain results s' where
    r: "for_articles demo_env demo_state (map PDict demo_articles) [] = (Inr results, s')"
    and len: "length results = length demo_articles"
    and meta: "\<forall>i<length demo_articles.
          py_field (results ! i) ''title'' =
            Some (case map_of (demo_articles ! i) ''title'' of Some v \<Rightarrow> v | None \<Rightarrow> PStr ''N/A'')
          \<and> py_field (results ! i) ''source'' =
            Some (case map_of (demo_articles ! i) ''source'' of Some v \<Rightarrow> v | None \<Rightarrow> PStr ''N/A'')
          \<and> py_field (results ! i) ''url'' =
            Some (case map_of (demo_articles ! i) ''url'' of Some v \<Rightarrow> v | None \<Rightarrow> PStr ''N/A'')
          \<and> py_field (results ! i) ''published'' =
            Some (case map_of (demo_articles ! i) ''published_at'' of Some v \<Rightarrow> v | None \<Rightarrow> PStr ''N/A'')"
    by blast
  have "length results = 3"
    using len by (simp add: demo_articles_def)
  moreover have "py_field (results ! 0) ''title'' = Some (PStr ''T'')"
    using meta [rule_format, of 0] by (simp add: demo_articles_def)
  moreover have "py_field (results ! 1) ''title'' = Some PNone \<and> py_field (results ! 1) ''url'' = Some PNone"
    using meta [rule_format, of 1] by (simp add: demo_articles_def)
  moreover have "py_field (results ! 2) ''title'' = Some (PStr ''N/A'')
      \<and> py_field (results ! 2) ''url'' = Some (PStr ''v'')
      \<and> py_field (results ! 2) ''published'' = Some (PStr ''N/A'')"
    using meta [rule_format, of 2] by (simp add: demo_articles_def)
  ultimately show ?thesis
    using r by blast
qed

theorem falsy_url_is_no_url_witness:
  "map_of [(''title'', PNone), (''url'', PStr [])] ''url'' = Some (PStr [])
   \<and> \<not> truthy (PStr [])
   \<and> (\<exists>r. summarise_article demo_env demo_state (PDict [(''title'', PNone), (''url'', PStr [])])
            = (Inr r, demo_state)
        \<and> py_field r ''error'' = Some (PStr ''No URL available for article.'')
        \<and> py_field r ''summary'' = Some PNone
        \<and> py_field r ''url'' = Some (PStr []))"
proof -
  have h1: "map_of [(''title'', PNone), (''url'', PStr [])] ''url'' = Some (PStr [])"
    by simp
  have h2: "\<not> truthy (PStr [])"
    by simp
  from falsy_url_is_no_url [OF h1 h2, of demo_env demo_state "[]" "[]"] h1 h2
  show ?thesis by blast
qed

lemma read_clock_state:
  assumes "read_clock env s = (t, s1)"
  shows "s1 = s\<lparr>world := snd (time_time env (world s))\<rparr> \<and> t = fst (time_time env (world s))"
  using assms by (auto simp: read_clock_def split: prod.splits)

lemma read_clock_fields:
  assumes "read_clock env s = (t, s1)"
  shows "cache s1 = cache s \<and> cache_writes s1 = cache_writes s \<and> calls s1 = calls s
         \<and> console s1 = console s"
  using assms by (auto simp: read_clock_def split: prod.splits)

lemma assign_fields:
  "cache (assign_data d (assign_timestamp t s)) = \<lparr>timestamp = t, data = d\<rparr>"
  "cache_writes (assign_data d (assign_timestamp t s))
     = cache_writes s @ [\<lparr>timestamp = t, data = data (cache s)\<rparr>, \<lparr>timestamp = t, data = d\<rparr>]"
  "calls (assign_data d (assign_timestamp t s)) = calls s"
  by (simp_all add: assign_data_def assign_timestamp_def Let_def)

lemma py_iter_truthy:
  assumes "truthy v" and "py_iter v = Inr items"
  shows "items \<noteq> []"
  using assms by (cases v) auto

lemma for_articles_calls:
  assumes "for_articles env s items acc = (r, s')"
  shows "cache s' = cache s \<and> cache_writes s' = cache_writes s
     \<and> (\<exists>per. calls s' = calls s @ concat per \<and> length per \<le> length items
           \<and> (\<forall>c\<in>set per. article_calls c)
           \<and> (\<forall>results. r = Inr results \<longrightarrow>
                 length per = length items \<and> length results = length acc + length items))"
  using assms
proof (induction items arbitrary: s acc)
  case Nil
  then show ?case
    by (auto intro: exI [of _ "[]"])
next
  case (Cons a items)
  obtain ra s1 where a: "summarise_article env s a = (ra, s1)"
    by (cases "summarise_article env s a")
  from summarise_article_state [OF a] obtain cs where
    s1: "cache s1 = cache s" "cache_writes s1 = cache_writes s"
    "calls s1 = calls s @ cs" "article_calls cs"
    by blast
  show ?case
  proof (cases ra)
    case (Inl e)
    with a Cons.prems have "r = Inl e" "s' = s1"
      by simp_all
    with s1 show ?thesis
      by (auto intro!: exI [of _ "[cs]"])
  next
    case (Inr d)
    with a Cons.prems have "for_articles env s1 items (acc @ [d]) = (r, s')"
      by simp
    from Cons.IH [OF this] obtain per where
      "cache s' = cache s1" "cache_writes s' = cache_writes s1"
      "calls s' = calls s1 @ concat per" "length per \<le> length items"
      "\<forall>c\<in>set per. article_calls c"
      "\<forall>results. r = Inr results \<longrightarrow>
          length per = length items \<and> length results = length (acc @ [d]) + length items"
      by blast
    with s1 show ?thesis
      by (auto intro!: exI [of _ "cs # per"])
  qed
qed

lemma get_summaries_cases:
  assumes "get_summaries env s = (r, s')"
  obtains
    (hit) now s1 where "read_clock env s = (now, s1)" "is_fresh now (cache s1)"
      "r = Inr (Response 200 (jsonify env (data (cache s1))))" "s' = s1"
  | (client_raised) now s1 e where "read_clock env s = (now, s1)" "\<not> is_fresh now (cache s1)"
      "genai_Client env = Some e" "r = Inl e" "s' = s1"
  | (fetch_raised) now s1 e where "read_clock env s = (now, s1)" "\<not> is_fresh now (cache s1)"
      "fetch_news env s1 = (Inl e, s')" "r = Inl e" "genai_Client env = None"
  | (no_articles) now s1 articles where "read_clock env s = (now, s1)"
      "\<not> is_fresh now (cache s1)" "fetch_news env s1 = (Inr articles, s')" "\<not> truthy articles"
      "r = Inr (Response 404 (jsonify env (PDict [(''message'', PStr ''No articles found.'')])))"
      "genai_Client env = None"
  | (not_iterable) now s1 articles e where "read_clock env s = (now, s1)"
      "\<not> is_fresh now (cache s1)" "fetch_news env s1 = (Inr articles, s')" "truthy articles"
      "py_iter articles = Inl e" "r = Inl e" "genai_Client env = None"
  | (loop_raised) now s1 articles s2 items e where "read_clock env s = (now, s1)"
      "\<not> is_fresh now (cache s1)" "fetch_news env s1 = (Inr articles, s2)" "truthy articles"
      "py_iter articles = Inr items" "for_articles env s2 items [] = (Inl e, s')" "r = Inl e"
      "genai_Client env = None"
  | (stored) now s1 articles s2 items results s3 t s4 where "read_clock env s = (now, s1)"
      "\<not> is_fresh now (cache s1)" "fetch_news env s1 = (Inr articles, s2)" "truthy articles"
      "py_iter articles = Inr items" "for_articles env s2 items [] = (Inr results, s3)"
      "read_clock env s3 = (t, s4)" "r = Inr (Response 200 (jsonify env (PList results)))"
      "s' = assign_data (PList results) (assign_timestamp t s4)" "genai_Client env = None"
proof -
  obtain now s1 where rc: "read_clock env s = (now, s1)"
    by (cases "read_clock env s")
  show thesis
  proof (cases "is_fresh now (cache s1)")
    case True
    with assms rc show thesis
      by (intro hit [of now s1]) (auto simp: get_summaries_def)
  next
    case stale: False
    show thesis
    proof (cases "genai_Client env")
      case (Some e)
      with assms rc stale show thesis
        by (intro client_raised [of now s1 e]) (auto simp: get_summaries_def)
    next
      case client: None
      obtain rf s2 where f: "fetch_news env s1 = (rf, s2)"
        by (cases "fetch_news env s1")
      show thesis
      proof (cases rf)
        case (Inl e)
        with assms rc stale client f show thesis
          by (intro fetch_raised [of now s1 e]) (auto simp: get_summaries_def)
      next
        case (Inr articles)
        show thesis
        proof (cases "truthy articles")
          case False
          with assms rc stale client f Inr show thesis
            by (intro no_articles [of now s1 articles]) (auto simp: get_summaries_def)
        next
          case True
          show thesis
          proof (cases "py_iter articles")
            case (Inl e)
            with assms rc stale client f Inr True show thesis
              by (intro not_iterable [of now s1 articles e]) (auto simp: get_summaries_def)
          next
            case items: (Inr items)
            obtain rl s3 where l: "for_articles env s2 items [] = (rl, s3)"
              by (cases "for_articles env s2 items []")
            show thesis
            proof (cases rl)
              case (Inl e)
              with assms rc stale client f Inr True items l show thesis
                by (intro loop_raised [of now s1 articles s2 items e])
                  (auto simp: get_summaries_def)
            next
              case results: (Inr results)
              obtain t s4 where rc2: "read_clock env s3 = (t, s4)"
                by (cases "read_clock env s3")
              with assms rc stale client f Inr True items l results show thesis
                by (intro stored [of now s1 articles s2 items results s3 t s4])
                  (auto simp: get_summaries_def)
            qed
          qed
        qed
      qed
    qed
  qed
qed

subsection \<open>The cache and the endpoint\<close>

text \<open>
  Claim C2. A request that finds data in the cache younger than the TTL answers 200
  with the JSON of the stored data, leaves the cache as it is and makes no call of the
  News Fetcher, the Content Extractor or the Summarizer: the state changes by the
  reading of the clock only. The body is the one of the response that left the cache in
  this state: every 200 response carries the JSON of the data the cache holds after
  it.
\<close>

theorem fresh_request_served_from_cache:
  assumes "time_time env (world s) = (now, w)" and "is_fresh now (cache s)"
  shows "get_summaries env s
           = (Inr (Response 200 (jsonify env (data (cache s)))), s\<lparr>world := w\<rparr>)
     \<and> calls (snd (get_summaries env s)) = calls s
     \<and> cache (snd (get_summaries env s)) = cache s
     \<and> (\<forall>s0 body0. get_summaries env s0 = (Inr (Response 200 body0), s)
            \<longrightarrow> body0 = jsonify env (data (cache s)))"
proof -
  have now: "get_summaries env s
           = (Inr (Response 200 (jsonify env (data (cache s)))), s\<lparr>world := w\<rparr>)"
    using assms by (simp add: get_summaries_def read_clock_def)
  have before: "body0 = jsonify env (data (cache s))"
    if prev: "get_summaries env s0 = (Inr (Response 200 body0), s)" for s0 body0
    using prev
  proof (cases rule: get_summaries_cases)
    case (hit now s1)
    then show ?thesis by simp
  next
    case (stored now s1 articles s2 items results s3 t s4)
    then show ?thesis by (simp add: assign_fields)
  qed simp_all
  from now before show ?thesis by simp
qed

text \<open>
  Claim C4. When the cache is stale, the summarizer is constructed and the News Fetcher
  returns an empty list (any value Python takes as false), the answer is 404 with the
  JSON of \<^verbatim>\<open>{"message": "No articles found."}\<close> as its body, and the cache is not
  written: it keeps its timestamp and its data. No request stores an empty list: a
  request leaves the cache as it was or stores a list of at least one record.
\<close>

theorem no_articles_not_found:
  assumes "read_clock env s = (now, s1)" and "\<not> is_fresh now (cache s1)"
    and "genai_Client env = None"
    and "fetch_news env s1 = (Inr articles, s2)" and "\<not> truthy articles"
  shows "get_summaries env s
           = (Inr (Response 404 (jsonify env (PDict [(''message'', PStr ''No articles found.'')]))),
              s2)
     \<and> cache s2 = cache s \<and> cache_writes s2 = cache_writes s
     \<and> (cache (snd (get_summaries env s0)) = cache s0
         \<or> (\<exists>results. data (cache (snd (get_summaries env s0))) = PList results
               \<and> 0 < length results))"
proof -
  have "get_summaries env s
           = (Inr (Response 404 (jsonify env (PDict [(''message'', PStr ''No articles found.'')]))),
              s2)"
    using assms by (simp add: get_summaries_def)
  moreover have "cache s2 = cache s \<and> cache_writes s2 = cache_writes s"
    using read_clock_fields [OF assms(1)] fetch_news_state [OF assms(4)] by simp
  moreover have "cache (snd (get_summaries env s0)) = cache s0
         \<or> (\<exists>results. data (cache (snd (get_summaries env s0))) = PList results
               \<and> 0 < length results)"
  proof -
    obtain r0 s0' where g: "get_summaries env s0 = (r0, s0')"
      by (cases "get_summaries env s0")
    from g show ?thesis
    proof (cases rule: get_summaries_cases)
      case (hit now s1)
      with g show ?thesis
        using read_clock_fields by fastforce
    next
      case (client_raised now s1 e)
      with g show ?thesis
        using read_clock_fields by fastforce
    next
      case (fetch_raised now s1 e)
      with g show ?thesis
        using read_clock_fields fetch_news_state by fastforce
    next
      case (no_articles now s1 articles)
      with g show ?thesis
        using read_clock_fields fetch_news_state by fastforce
    next
      case (not_iterable now s1 articles e)
      with g show ?thesis
        using read_clock_fields fetch_news_state by fastforce
    next
      case (loop_raised now s1 articles s2 items e)
      with g show ?thesis
        using read_clock_fields fetch_news_state for_articles_calls by fastforce
    next
      case (stored now s1 articles s2 items results s3 t s4)
      from for_articles_calls [OF stored(6)] have "length results = length items"
        by auto
      moreover have "items \<noteq> []"
        using py_iter_truthy stored(4,5) by blast
      ultimately have "results \<noteq> []"
        by auto
      then show ?thesis
        using g stored(9) by (simp add: assign_fields)
    qed
  qed
  ultimately show ?thesis by simp
qed



text \<open>
  Claim C8, as the code has it. A request writes the cache only after the loop has
  produced a record for every article, and then by two assignments: first the
  timestamp, then the data. After the request the cache pairs the new timestamp with
  the complete new list; between the two assignments it pairs the new timestamp with
  the data of before. Every other request leaves the cache and its history unchanged.
\<close>

theorem cache_written_after_full_pass:
  assumes "get_summaries env s = (r, s')"
  shows "(cache s' = cache s \<and> cache_writes s' = cache_writes s)
     \<or> (\<exists>now s1 articles s2 items results s3 t s4.
           read_clock env s = (now, s1) \<and> fetch_news env s1 = (Inr articles, s2)
           \<and> py_iter articles = Inr items
           \<and> for_articles env s2 items [] = (Inr results, s3)
           \<and> length results = length items
           \<and> read_clock env s3 = (t, s4)
           \<and> r = Inr (Response 200 (jsonify env (PList results)))
           \<and> cache_writes s' = cache_writes s
                @ [\<lparr>timestamp = t, data = data (cache s)\<rparr>, \<lparr>timestamp = t, data = PList results\<rparr>]
           \<and> cache s' = \<lparr>timestamp = t, data = PList results\<rparr>)"
  using assms
proof (cases rule: get_summaries_cases)
  case (hit now s1)
  then show ?thesis
    using read_clock_fields by fastforce
next
  case (client_raised now s1 e)
  then show ?thesis
    using read_clock_fields by fastforce
next
  case (fetch_raised now s1 e)
  then show ?thesis
    using read_clock_fields fetch_news_state by fastforce
next
  case (no_articles now s1 articles)
  then show ?thesis
    using read_clock_fields fetch_news_state by fastforce
next
  case (not_iterable now s1 articles e)
  then show ?thesis
    using read_clock_fields fetch_news_state by fastforce
next
  case (loop_raised now s1 articles s2 items e)
  then show ?thesis
    using read_clock_fields fetch_news_state for_articles_calls by fastforce
next
  case (stored now s1 articles s2 items results s3 t s4)
  have "cache s4 = cache s \<and> cache_writes s4 = cache_writes s"
    using read_clock_fields [OF stored(1)] fetch_news_state [OF stored(3)]
      for_articles_calls [OF stored(6)] read_clock_fields [OF stored(7)]
    by simp
  moreover have "length results = length items"
    using for_articles_calls [OF stored(6)] by auto
  ultimately show ?thesis
    using stored by (intro disjI2 exI [of _ now] exI [of _ s1] exI [of _ articles] exI [of _ s2]
        exI [of _ items] exI [of _ results] exI [of _ s3] exI [of _ t] exI [of _ s4])
      (simp add: assign_fields)
qed

subsection \<open>The endpoint in the small world\<close>

lemmas run_defs = demo_defs get_summaries_def read_clock_def is_fresh_def CACHE_TTL_def
  fetch_news_def fetch_news_try_def assign_data_def assign_timestamp_def
  demo_cached_state_def demo_results_def demo_stale_state_def summary_data_init_def

text \<open>At an age of exactly the TTL the cache is stale; just below it is fresh.\<close>

lemma stale_at_ttl:
  "\<not> is_fresh 40001 \<lparr>timestamp = 1, data = PList []\<rparr>
   \<and> is_fresh 40000 \<lparr>timestamp = 1, data = PList []\<rparr>
   \<and> \<not> is_fresh 40000 \<lparr>timestamp = 1, data = PNone\<rparr>"
  by (simp add: is_fresh_def CACHE_TTL_def)

lemma demo_run:
  "get_summaries demo_env demo_state = (Inr (Response 200 ''rrr''), demo_cached_state)"
  by (simp add: run_defs)

lemma demo_rerun:
  "get_summaries demo_env demo_cached_state
     = (Inr (Response 200 ''rrr''), demo_cached_state\<lparr>world := 7\<rparr>)"
  by (simp add: run_defs)

theorem fresh_request_served_from_cache_witness:
  "time_time demo_env (world demo_cached_state) = (50006, 7)
   \<and> is_fresh 50006 (cache demo_cached_state)
   \<and> get_summaries demo_env demo_state = (Inr (Response 200 ''rrr''), demo_cached_state)
   \<and> get_summaries demo_env demo_cached_state
        = (Inr (Response 200 ''rrr''), demo_cached_state\<lparr>world := 7\<rparr>)
   \<and> calls (snd (get_summaries demo_env demo_cached_state)) = calls demo_cached_state
   \<and> ''rrr'' = jsonify demo_env (data (cache demo_cached_state))"
proof -
  have h1: "time_time demo_env (world demo_cached_state) = (50006, 7)"
    by (simp add: demo_env_def demo_cached_state_def)
  have h2: "is_fresh 50006 (cache demo_cached_state)"
    by (simp add: is_fresh_def CACHE_TTL_def demo_cached_state_def)
  note inst = fresh_request_served_from_cache [OF h1 h2]
  from inst have "''rrr'' = jsonify demo_env (data (cache demo_cached_state))"
    using demo_run by blast
  moreover from inst have "calls (snd (get_summaries demo_env demo_cached_state)) = calls demo_cached_state"
    by blast
  ultimately show ?thesis
    using h1 h2 demo_run demo_rerun by blast
qed




theorem no_articles_not_found_witness:
  "read_clock empty_news_env demo_stale_state = (50000, demo_stale_state\<lparr>world := 1\<rparr>)
   \<and> \<not> is_fresh 50000 (cache (demo_stale_state\<lparr>world := 1\<rparr>))
   \<and> genai_Client empty_news_env = None
   \<and> fetch_news empty_news_env (demo_stale_state\<lparr>world := 1\<rparr>)
        = (Inr (PList []), demo_stale_state\<lparr>world := 2, calls := [NewsFetcherCall]\<rparr>)
   \<and> \<not> truthy (PList [])
   \<and> get_summaries empty_news_env demo_stale_state
        = (Inr (Response 404
                 (jsonify empty_news_env (PDict [(''message'', PStr ''No articles found.'')]))),
           demo_stale_state\<lparr>world := 2, calls := [NewsFetcherCall]\<rparr>)
   \<and> cache (demo_stale_state\<lparr>world := 2, calls := [NewsFetcherCall]\<rparr>) = cache demo_stale_state"
proof -
  have h1: "read_clock empty_news_env demo_stale_state = (50000, demo_stale_state\<lparr>world := 1\<rparr>)"
    by (simp add: read_clock_def empty_news_env_def demo_env_def demo_stale_state_def)
  have h2: "\<not> is_fresh 50000 (cache (demo_stale_state\<lparr>world := 1\<rparr>))"
    by (simp add: is_fresh_def CACHE_TTL_def demo_stale_state_def)
  have h3: "genai_Client empty_news_env = None"
    by (simp add: empty_news_env_def demo_env_def)
  have h4: "fetch_news empty_news_env (demo_stale_state\<lparr>world := 1\<rparr>)
        = (Inr (PList []), demo_stale_state\<lparr>world := 2, calls := [NewsFetcherCall]\<rparr>)"
    by (simp add: empty_news_env_def run_defs)
  have h5: "\<not> truthy (PList [])"
    by simp
  from no_articles_not_found [OF h1 h2 h3 h4 h5] h1 h2 h3 h4 h5 show ?thesis
    by blast
qed

theorem cache_written_after_full_pass_witness:
  "get_summaries demo_env demo_stale_state
     = (Inr (Response 200 ''rrr''),
        demo_cached_state\<lparr>cache_writes :=
          [\<lparr>timestamp = 50005, data = PList [PStr ''old'']\<rparr>,
           \<lparr>timestamp = 50005, data = PList demo_results\<rparr>]\<rparr>)
   \<and> (\<exists>results t.
         cache_writes (demo_cached_state\<lparr>cache_writes :=
            [\<lparr>timestamp = 50005, data = PList [PStr ''old'']\<rparr>,
             \<lparr>timestamp = 50005, data = PList demo_results\<rparr>]\<rparr>)
           = cache_writes demo_stale_state
              @ [\<lparr>timestamp = t, data = data (cache demo_stale_state)\<rparr>,
                 \<lparr>timestamp = t, data = PList results\<rparr>]
         \<and> cache demo_cached_state = \<lparr>timestamp = t, data = PList results\<rparr>
         \<and> length results = 3)"
proof -
  have h: "get_summaries demo_env demo_stale_state
     = (Inr (Response 200 ''rrr''),
        demo_cached_state\<lparr>cache_writes :=
          [\<lparr>timestamp = 50005, data = PList [PStr ''old'']\<rparr>,
           \<lparr>timestamp = 50005, data = PList demo_results\<rparr>]\<rparr>)"
    by (simp add: run_defs)
  have "cache (demo_cached_state\<lparr>cache_writes :=
          [\<lparr>timestamp = 50005, data = PList [PStr ''old'']\<rparr>,
           \<lparr>timestamp = 50005, data = PList demo_results\<rparr>]\<rparr>) \<noteq> cache demo_stale_state"
    by (simp add: demo_cached_state_def demo_stale_state_def)
  with cache_written_after_full_pass [OF h] have "\<exists>results t.
         cache_writes (demo_cached_state\<lparr>cache_writes :=
            [\<lparr>timestamp = 50005, data = PList [PStr ''old'']\<rparr>,
             \<lparr>timestamp = 50005, data = PList demo_results\<rparr>]\<rparr>)
           = cache_writes demo_stale_state
              @ [\<lparr>timestamp = t, data = data (cache demo_stale_state)\<rparr>,
                 \<lparr>timestamp = t, data = PList results\<rparr>]
         \<and> cache demo_cached_state = \<lparr>timestamp = t, data = PList results\<rparr>
         \<and> length results = 3"
    by (auto simp: demo_cached_state_def demo_results_def)
  with h show ?thesis by blast
qed

text \<open>
  A stale cache holding an old list: the first of the two writes of the request leaves
  the new timestamp 50005 beside the old list, the second brings the new list.
\<close>

theorem new_timestamp_with_old_data:
  "cache demo_stale_state = \<lparr>timestamp = 1, data = PList [PStr ''old'']\<rparr>
   \<and> cache_writes demo_stale_state = []
   \<and> cache_writes (snd (get_summaries demo_env demo_stale_state))
        = [\<lparr>timestamp = 50005, data = PList [PStr ''old'']\<rparr>,
           \<lparr>timestamp = 50005, data = PList demo_results\<rparr>]
   \<and> PList demo_results \<noteq> PList [PStr ''old'']"
  by (simp add: run_defs)

text \<open>
  Claim C6, at the input where the code departs from it. The news API answers 200 with
  a JSON array: \<^verbatim>\<open>data.get\<close> raises \<^verbatim>\<open>AttributeError\<close>, which the handler
  \<^verbatim>\<open>except requests.exceptions.RequestException\<close> of \<^verbatim>\<open>fetch_news\<close> does not catch
  and \<^verbatim>\<open>get_summaries\<close> lets through to the HTTP layer, with nothing printed. The
  failures \<^verbatim>\<open>fetch_news\<close> does catch end as the claim says, printed and answered with
  the empty list: an error status, a body that is not JSON, a request that does not
  get through. The two other methods catch the same \<^verbatim>\<open>AttributeError\<close>, raised by the
  parser or by the missing text of the model's response, and return the empty string.
\<close>

theorem fetch_news_raises_on_list_body:
  "fetch_news list_body_env demo_state
     = (Inl AttributeError, demo_state\<lparr>world := 1, calls := [NewsFetcherCall]\<rparr>)
   \<and> get_summaries list_body_env demo_state
     = (Inl AttributeError, demo_state\<lparr>world := 2, calls := [NewsFetcherCall]\<rparr>)
   \<and> fetch_news server_error_env demo_state
     = (Inr (PList []),
        demo_state\<lparr>world := 1, calls := [NewsFetcherCall],
          console := [(''Error fetching news: '', HTTPError 503)]\<rparr>)
   \<and> fetch_news html_body_env demo_state
     = (Inr (PList []),
        demo_state\<lparr>world := 1, calls := [NewsFetcherCall],
          console := [(''Error fetching news: '', JSONDecodeError)]\<rparr>)
   \<and> fetch_news failing_env demo_state
     = (Inr (PList []),
        demo_state\<lparr>world := 1, calls := [NewsFetcherCall],
          console := [(''Error fetching news: '', ConnectionError)]\<rparr>)
   \<and> extract_content broken_parser_env demo_state (PStr ''u'')
     = ([],
        demo_state\<lparr>world := 1, calls := [ContentExtractorCall (PStr ''u'')],
          console := [(''Error extracting content: '', AttributeError)]\<rparr>)
   \<and> generate_summary broken_parser_env demo_state ''c''
     = ([],
        demo_state\<lparr>world := 1, calls := [SummarizerCall ''c''],
          console := [(''Error generating summary: '', AttributeError)]\<rparr>)"
  by (simp add: list_body_env_def server_error_env_def html_body_env_def failing_env_def
      broken_parser_env_def run_defs)

subsection \<open>The text of a page\<close>

lemma isspace_space: "isspace (CHR '' '')"
  by (simp add: isspace_def)

lemma linebreak_isspace: "is_linebreak c \<Longrightarrow> isspace c"
  by (auto simp: is_linebreak_def isspace_def Let_def)

lemma space_not_linebreak: "\<not> is_linebreak (CHR '' '')"
  by (simp add: is_linebreak_def)

lemma two_spaces_Cons:
  "two_spaces (c # s) = ((s \<noteq> [] \<and> c = CHR '' '' \<and> hd s = CHR '' '') \<or> two_spaces s)"
  by (cases s) auto

lemma two_spaces_append:
  "two_spaces (xs @ ys) =
     (two_spaces xs \<or> two_spaces ys
      \<or> (xs \<noteq> [] \<and> ys \<noteq> [] \<and> last xs = CHR '' '' \<and> hd ys = CHR '' ''))"
proof (induction xs)
  case Nil
  show ?case by simp
next
  case (Cons x xs)
  show ?case
    by (cases xs) (use Cons in \<open>auto simp: two_spaces_Cons\<close>)
qed

lemma two_spaces_rev: "two_spaces (rev s) = two_spaces s"
  by (induction s) (auto simp: two_spaces_append two_spaces_Cons last_rev)

lemma two_spaces_dropWhile: "two_spaces (dropWhile P s) \<Longrightarrow> two_spaces s"
  by (induction s) (auto simp: two_spaces_Cons split: if_splits)

lemma strip_two_spaces: "\<not> two_spaces s \<Longrightarrow> \<not> two_spaces (strip s)"
  unfolding strip_def two_spaces_rev
  by (metis two_spaces_dropWhile two_spaces_rev)

lemma set_strip: "set (strip s) \<subseteq> set s"
  by (auto simp: strip_def dest!: set_dropWhileD)

lemma last_dropWhile: "dropWhile P xs \<noteq> [] \<Longrightarrow> last (dropWhile P xs) = last xs"
  by (induction xs) (auto split: if_splits)

lemma strip_ends:
  assumes "strip s \<noteq> []"
  shows "\<not> isspace (hd (strip s)) \<and> \<not> isspace (last (strip s))"
proof -
  let ?t = "dropWhile isspace s"
  let ?u = "dropWhile isspace (rev ?t)"
  from assms have u: "?u \<noteq> []"
    by (simp add: strip_def)
  then have t: "?t \<noteq> []"
    by (metis dropWhile.simps(1) rev.simps(1))
  have "last (strip s) = hd ?u"
    using u by (simp add: strip_def last_rev)
  moreover have "\<not> isspace (hd ?u)"
    using u hd_dropWhile by blast
  moreover have "hd (strip s) = last ?u"
    using u by (simp add: strip_def hd_rev)
  moreover have "last ?u = hd ?t"
    using last_dropWhile [OF u] t by (simp add: last_rev)
  moreover have "\<not> isspace (hd ?t)"
    using t hd_dropWhile by blast
  ultimately show ?thesis by simp
qed

lemma filter_dropWhile: "filter (\<lambda>c. \<not> P c) (dropWhile P xs) = filter (\<lambda>c. \<not> P c) xs"
  by (induction xs) auto

lemma filter_strip: "filter (\<lambda>c. \<not> isspace c) (strip s) = filter (\<lambda>c. \<not> isspace c) s"
  by (simp add: strip_def filter_dropWhile flip: rev_filter)


lemma split_two_spaces_hd:
  "split_two_spaces (d # s) = p # ps \<Longrightarrow> p = [] \<or> hd p = d"
  by (cases s) (auto split: if_splits list.splits)

lemma split_two_spaces_pieces:
  "p \<in> set (split_two_spaces s) \<Longrightarrow> \<not> two_spaces p \<and> set p \<subseteq> set s"
proof (induction s arbitrary: p rule: split_two_spaces.induct)
  case 1
  then show ?case by simp
next
  case (2 c)
  then show ?case by simp
next
  case (3 c d s)
  show ?case
  proof (cases "c = CHR '' '' \<and> d = CHR '' ''")
    case True
    with 3 show ?thesis by auto
  next
    case False
    show ?thesis
    proof (cases "split_two_spaces (d # s)")
      case Nil
      with False "3.prems" show ?thesis by auto
    next
      case (Cons q qs)
      from split_two_spaces_hd [OF Cons] have hd: "q = [] \<or> hd q = d" .
      have q: "\<not> two_spaces q \<and> set q \<subseteq> set (d # s)"
        using "3.IH" [of q] False Cons by simp
      have rest: "\<not> two_spaces p \<and> set p \<subseteq> set (d # s)" if "p \<in> set qs"
        using "3.IH" [of p] False Cons that by simp
      from "3.prems" False Cons have "p = c # q \<or> p \<in> set qs"
        by simp
      then show ?thesis
      proof
        assume "p = c # q"
        with q hd False show ?thesis
          by (auto simp: two_spaces_Cons)
      next
        assume "p \<in> set qs"
        with rest show ?thesis by auto
      qed
    qed
  qed
qed

lemma filter_split_two_spaces:
  assumes "\<not> Q (CHR '' '')"
  shows "filter Q (concat (split_two_spaces s)) = filter Q s"
proof (induction s rule: split_two_spaces.induct)
  case (3 c d s)
  then show ?case
    using assms by (cases "split_two_spaces (d # s)") auto
qed simp_all



lemma splitlines_from_lines:
  assumes "l \<in> set (splitlines_from cur s)" and "\<forall>c\<in>set cur. \<not> is_linebreak c"
  shows "\<forall>c\<in>set l. \<not> is_linebreak c"
  using assms
proof (induction cur s arbitrary: l rule: splitlines_from.induct)
  case (1 cur)
  then show ?case
    by (simp split: if_splits)
next
  case (2 cur c)
  then show ?case
    by (simp split: if_splits)
next
  case (3 cur c d s)
  show ?case
  proof (cases "c = CHR 0x0D \<and> d = CHR 0x0A")
    case True
    with "3.prems" have "l = rev cur \<or> l \<in> set (splitlines_from [] s)"
      by simp
    with "3.IH"(1) [of l] "3.prems"(2) True show ?thesis
      by auto
  next
    case False
    show ?thesis
    proof (cases "is_linebreak c")
      case True
      with False "3.prems" have "l = rev cur \<or> l \<in> set (splitlines_from [] (d # s))"
        by auto
      with "3.IH"(2) [of l] "3.prems"(2) True False show ?thesis
        by auto
    next
      case nb: False
      with False "3.prems" have "l \<in> set (splitlines_from (c # cur) (d # s))"
        by auto
      with "3.IH"(3) [of l] "3.prems"(2) nb False show ?thesis
        by auto
    qed
  qed
qed


lemma filter_splitlines_from:
  assumes "\<And>c. Q c \<Longrightarrow> \<not> is_linebreak c"
  shows "filter Q (concat (splitlines_from cur s)) = filter Q (rev cur @ s)"
proof (induction cur s rule: splitlines_from.induct)
  case (1 cur)
  show ?case by simp
next
  case (2 cur c)
  show ?case
    using assms [of c] by auto
next
  case (3 cur c d s)
  have cr: "\<not> Q (CHR 0x0D)" and lf: "\<not> Q (CHR 0x0A)"
    using assms [of "CHR 0x0D"] assms [of "CHR 0x0A"] by (auto simp: is_linebreak_def)
  show ?case
  proof (cases "c = CHR 0x0D \<and> d = CHR 0x0A")
    case True
    with "3.IH"(1) cr lf show ?thesis
      by simp
  next
    case False
    show ?thesis
    proof (cases "is_linebreak c")
      case True
      then have "\<not> Q c"
        using assms by blast
      with "3.IH"(2) True False show ?thesis
        by auto
    next
      case nb: False
      with "3.IH"(3) False show ?thesis
        by auto
    qed
  qed
qed

lemma join_space_filter:
  assumes "\<not> Q (CHR '' '')"
  shows "filter Q (join_space xs) = filter Q (concat xs)"
  by (induction xs rule: join_space.induct) (use assms in simp_all)

lemma join_space_set: "set (join_space xs) \<subseteq> insert (CHR '' '') (set (concat xs))"
  by (induction xs rule: join_space.induct) auto

lemma join_space_ends:
  assumes "xs \<noteq> []" and "\<forall>x\<in>set xs. x \<noteq> []"
  shows "join_space xs \<noteq> [] \<and> hd (join_space xs) = hd (hd xs)
         \<and> last (join_space xs) = last (last xs)"
  using assms
  by (induction xs rule: join_space.induct) simp_all

lemma join_space_two_spaces:
  assumes "\<forall>x\<in>set xs. x \<noteq> [] \<and> hd x \<noteq> CHR '' '' \<and> last x \<noteq> CHR '' '' \<and> \<not> two_spaces x"
  shows "\<not> two_spaces (join_space xs)"
  using assms
proof (induction xs rule: join_space.induct)
  case (3 x y xs)
  then have "\<not> two_spaces (join_space (y # xs))"
    by simp
  moreover have "hd (join_space (y # xs)) = hd y" and "join_space (y # xs) \<noteq> []"
    using join_space_ends [of "y # xs"] 3 by simp_all
  ultimately show ?case
    using 3 by (simp add: two_spaces_append two_spaces_Cons)
qed simp_all


lemma filter_concat_map:
  assumes "\<And>x. filter Q (f x) = filter Q x"
  shows "filter Q (concat (map f xs)) = filter Q (concat xs)"
  by (induction xs) (simp_all add: assms)

lemma concat_concat_map:
  "concat (concat (map f xs)) = concat (map (\<lambda>x. concat (f x)) xs)"
  by (induction xs) simp_all

lemma concat_nonempty: "concat (filter (\<lambda>c. c \<noteq> []) xs) = concat xs"
  by (induction xs) simp_all

lemma clean_up_chunk:
  assumes "l \<in> set (splitlines txt)" and "p \<in> set (split_two_spaces (strip l))"
    and "strip p \<noteq> []"
  shows "\<not> isspace (hd (strip p)) \<and> \<not> isspace (last (strip p)) \<and> \<not> two_spaces (strip p)
         \<and> (\<forall>x\<in>set (strip p). \<not> is_linebreak x)"
proof -
  have "\<forall>x\<in>set l. \<not> is_linebreak x"
    using splitlines_from_lines [of l "[]" "txt"] assms(1) by (simp add: splitlines_def)
  moreover have "set (strip p) \<subseteq> set l"
    using set_strip [of p] set_strip [of l] split_two_spaces_pieces [OF assms(2)] by blast
  ultimately have "\<forall>x\<in>set (strip p). \<not> is_linebreak x"
    by blast
  moreover have "\<not> two_spaces (strip p)"
    using split_two_spaces_pieces [OF assms(2)] strip_two_spaces by blast
  ultimately show ?thesis
    using strip_ends [OF assms(3)] by simp
qed

lemma clean_up_normal:
  "(clean_up txt \<noteq> [] \<longrightarrow> \<not> isspace (hd (clean_up txt)) \<and> \<not> isspace (last (clean_up txt)))
   \<and> (\<forall>c\<in>set (clean_up txt). \<not> is_linebreak c)
   \<and> \<not> two_spaces (clean_up txt)
   \<and> filter (\<lambda>c. \<not> isspace c) (clean_up txt) = filter (\<lambda>c. \<not> isspace c) txt"
proof -
  define chunks where "chunks = filter (\<lambda>chunk. chunk \<noteq> [])
     (concat (map (\<lambda>line. map strip (split_two_spaces line)) (map strip (splitlines txt))))"
  have r: "clean_up txt = join_space chunks"
    by (simp add: clean_up_def chunks_def)
  have chunk: "c \<noteq> [] \<and> \<not> isspace (hd c) \<and> \<not> isspace (last c) \<and> \<not> two_spaces c
         \<and> (\<forall>x\<in>set c. \<not> is_linebreak x)" if "c \<in> set chunks" for c
  proof -
    from that obtain l p where "l \<in> set (splitlines txt)" "p \<in> set (split_two_spaces (strip l))"
      "c = strip p" "c \<noteq> []"
      by (auto simp: chunks_def)
    then show ?thesis
      using clean_up_chunk [of l "txt" p] by simp
  qed
  have ends: "\<not> isspace (hd (clean_up txt)) \<and> \<not> isspace (last (clean_up txt))"
    if "clean_up txt \<noteq> []"
  proof -
    from that r have ne: "chunks \<noteq> []"
      by auto
    then have "hd chunks \<in> set chunks" "last chunks \<in> set chunks"
      by simp_all
    with chunk have "\<not> isspace (hd (hd chunks))" "\<not> isspace (last (last chunks))"
      by blast+
    moreover have "hd (join_space chunks) = hd (hd chunks)
        \<and> last (join_space chunks) = last (last chunks)"
      using join_space_ends [OF ne] chunk by blast
    ultimately show ?thesis
      by (simp add: r)
  qed
  have lines: "\<forall>c\<in>set (clean_up txt). \<not> is_linebreak c"
  proof
    fix c assume "c \<in> set (clean_up txt)"
    then have "c = CHR '' '' \<or> c \<in> set (concat chunks)"
      using join_space_set [of chunks] r by auto
    then show "\<not> is_linebreak c"
      using chunk space_not_linebreak by auto
  qed
  have two: "\<not> two_spaces (clean_up txt)"
    unfolding r
  proof (rule join_space_two_spaces, rule ballI)
    fix x assume "x \<in> set chunks"
    from chunk [OF this] isspace_space
    show "x \<noteq> [] \<and> hd x \<noteq> CHR '' '' \<and> last x \<noteq> CHR '' '' \<and> \<not> two_spaces x"
      by metis
  qed
  let ?Q = "\<lambda>c. \<not> isspace c"
  have "filter ?Q (clean_up txt) = filter ?Q (concat chunks)"
    unfolding r by (rule join_space_filter) (simp add: isspace_space)
  also have "\<dots> = filter ?Q (concat (concat (map (\<lambda>line. map strip (split_two_spaces line))
       (map strip (splitlines txt)))))"
    by (simp add: chunks_def concat_nonempty)
  also have "\<dots> = filter ?Q (concat (map (\<lambda>line. concat (map strip (split_two_spaces line)))
       (map strip (splitlines txt))))"
    by (simp add: concat_concat_map comp_def)
  also have "\<dots> = filter ?Q (concat (map strip (splitlines txt)))"
  proof (rule filter_concat_map [where f = "\<lambda>line. concat (map strip (split_two_spaces line))"
        and xs = "map strip (splitlines txt)"])
    fix x
    have "filter ?Q (concat (map strip (split_two_spaces x)))
        = filter ?Q (concat (split_two_spaces x))"
      by (rule filter_concat_map) (rule filter_strip)
    also have "\<dots> = filter ?Q x"
      by (rule filter_split_two_spaces) (simp add: isspace_space)
    finally show "filter ?Q (concat (map strip (split_two_spaces x))) = filter ?Q x" .
  qed
  also have "\<dots> = filter ?Q (concat (splitlines txt))"
    by (rule filter_concat_map) (rule filter_strip)
  also have "\<dots> = filter ?Q txt"
    using filter_splitlines_from [of ?Q "[]" "txt"] linebreak_isspace
    by (auto simp: splitlines_def)
  finally have "filter ?Q (clean_up txt) = filter ?Q txt" .
  with ends lines two show ?thesis
    by blast
qed

subsection \<open>The parse tree\<close>

lemma visible_text_has_name:
  "has_name names h \<Longrightarrow> visible_text (names @ string_containers) h = []"
  by (cases h) auto

lemma get_text_decompose_found:
  "\<not> has_name names h \<Longrightarrow>
     get_text (decompose_found names h) = visible_text (names @ string_containers) h"
proof (induction h)
  case (Text t)
  show ?case by simp
next
  case (Element n cs)
  have "concat (map (\<lambda>c. get_text (decompose_found names c)) (filter (\<lambda>c. \<not> has_name names c) ds))
        = concat (map (visible_text (names @ string_containers)) ds)" if "set ds \<subseteq> set cs" for ds
    using that
  proof (induction ds)
    case Nil
    show ?case by simp
  next
    case (Cons d ds)
    then show ?case
      using Element.IH [of d] visible_text_has_name [of names d] by auto
  qed
  from this [of cs] Element.prems show ?case
    by (simp add: comp_def)
qed

lemma soup_visible_text:
  "soup_get_text (soup_decompose names soup)
     = concat (map (visible_text (names @ string_containers)) soup)"
  unfolding soup_get_text_def soup_decompose_def
  by (induction soup)
    (auto simp: get_text_decompose_found visible_text_has_name)

text \<open>
  What the clean-up does achieve. For a page that is fetched with a status below 400
  and parsed, the returned string is the clean-up of the text outside the
  \<^verbatim>\<open>script\<close>, \<^verbatim>\<open>style\<close> and \<^verbatim>\<open>a\<close> elements and outside the elements whose
  strings \<^verbatim>\<open>get_text()\<close> leaves out. It neither starts nor ends with whitespace, holds
  no line boundary and no two adjacent spaces, and has the non-whitespace characters of
  that text in their order.
\<close>

lemma extracted_text_normal_form:
  assumes "requests_get env (world s) url = (Inr response, w)"
    and "raise_for_status response = None"
    and "html_parser env (response_text response) = Inr soup"
  shows "fst (extract_content env s url)
           = clean_up (concat (map (visible_text
               ([''script'', ''style'', ''a''] @ string_containers)) soup))
     \<and> (fst (extract_content env s url) \<noteq> [] \<longrightarrow>
           \<not> isspace (hd (fst (extract_content env s url)))
           \<and> \<not> isspace (last (fst (extract_content env s url))))
     \<and> (\<forall>c\<in>set (fst (extract_content env s url)). \<not> is_linebreak c)
     \<and> \<not> two_spaces (fst (extract_content env s url))
     \<and> filter (\<lambda>c. \<not> isspace c) (fst (extract_content env s url))
           = filter (\<lambda>c. \<not> isspace c)
               (concat (map (visible_text
                  ([''script'', ''style'', ''a''] @ string_containers)) soup))"
proof -
  let ?visible = "concat (map (visible_text ([''script'', ''style'', ''a''] @ string_containers)) soup)"
  have "fst (extract_content env s url) = clean_up ?visible"
    using assms
    by (simp add: extract_content_def extract_content_try_def log_call_def soup_visible_text)
  then show ?thesis
    using clean_up_normal [of ?visible] by simp
qed

text \<open>
  Claim C7, at the input where the code departs from it. A page whose text is
  \<^verbatim>\<open>a\<close>, a space, a tab, \<^verbatim>\<open>b\<close>: the line is split at pairs of spaces only,
  so the returned string is that text, with its run of two whitespace characters, not
  collapsed into one space. On the page of the small world the pair of spaces and the
  line feed do collapse, and the texts of the link and of the template are left out.
\<close>

theorem space_then_tab_kept:
  "extract_content tab_page_env demo_state (PStr ''u'')
     = ([CHR ''a'', CHR '' '', CHR 0x09, CHR ''b''],
        demo_state\<lparr>world := 1, calls := [ContentExtractorCall (PStr ''u'')]\<rparr>)
   \<and> isspace (CHR '' '') \<and> isspace (CHR 0x09)
   \<and> extract_content demo_env demo_state (PStr ''u'')
     = (''hi y'', demo_state\<lparr>world := 1, calls := [ContentExtractorCall (PStr ''u'')]\<rparr>)"
  by (simp add: tab_page_env_def run_defs)

end
